theory Spec2Isabelle
  imports Complex_Main
begin

section \<open>Rolling z-score anomaly detector and synthetic data stream\<close>

text \<open>
  A shallow embedding of \<^verbatim>\<open>anomaly_detector.py\<close> and \<^verbatim>\<open>data_stream_simulator.py\<close>.
  Python objects become records that are passed in and returned updated; an exception
  becomes the left injection of a sum.  A finite float is idealised as the real number it
  stands for (no rounding, no overflow, no signed zero); the not-a-number and the two
  infinities that numpy produces instead of raising are kept as values of their own.
\<close>

subsection \<open>Exceptions and numpy floats\<close>

datatype error = ValueError | AttributeError | ZeroDivisionError

datatype npfloat = NaN | PInf | NInf | Fin real

fun np_neg :: "npfloat \<Rightarrow> npfloat" where
  "np_neg NaN = NaN"
| "np_neg PInf = NInf"
| "np_neg NInf = PInf"
| "np_neg (Fin a) = Fin (- a)"

fun np_add :: "npfloat \<Rightarrow> npfloat \<Rightarrow> npfloat" where
  "np_add (Fin a) (Fin b) = Fin (a + b)"
| "np_add NaN _ = NaN"
| "np_add _ NaN = NaN"
| "np_add PInf NInf = NaN"
| "np_add NInf PInf = NaN"
| "np_add PInf _ = PInf"
| "np_add _ PInf = PInf"
| "np_add NInf _ = NInf"
| "np_add _ NInf = NInf"

definition np_sub :: "npfloat \<Rightarrow> npfloat \<Rightarrow> npfloat" where
  "np_sub a b = np_add a (np_neg b)"

text \<open>Division of numpy scalars never raises: a zero divisor gives an infinity or NaN.\<close>

fun np_div :: "npfloat \<Rightarrow> npfloat \<Rightarrow> npfloat" where
  "np_div (Fin a) (Fin b) =
     (if b = 0 then (if a = 0 then NaN else if 0 < a then PInf else NInf)
      else Fin (a / b))"
| "np_div NaN _ = NaN"
| "np_div _ NaN = NaN"
| "np_div (Fin a) _ = Fin 0"
| "np_div PInf (Fin b) = (if b < 0 then NInf else PInf)"
| "np_div NInf (Fin b) = (if b < 0 then PInf else NInf)"
| "np_div _ _ = NaN"

fun np_abs :: "npfloat \<Rightarrow> npfloat" where
  "np_abs NaN = NaN"
| "np_abs PInf = PInf"
| "np_abs NInf = PInf"
| "np_abs (Fin a) = Fin \<bar>a\<bar>"

text \<open>The comparison \<^verbatim>\<open>x > t\<close> against a finite \<^verbatim>\<open>t\<close>; every comparison with NaN is false.\<close>

fun np_gt :: "npfloat \<Rightarrow> real \<Rightarrow> bool" where
  "np_gt NaN t = False"
| "np_gt PInf t = True"
| "np_gt NInf t = False"
| "np_gt (Fin a) t = (t < a)"

text \<open>
  \<^verbatim>\<open>np.mean\<close> and \<^verbatim>\<open>np.std\<close> (population standard deviation, \<^verbatim>\<open>ddof=0\<close>) of a
  sequence of finite values.  On an empty sequence both are 0/0, which numpy reports as
  NaN with a warning, not an exception.
\<close>

definition mean_of :: "real list \<Rightarrow> real" where
  "mean_of xs = sum_list xs / real (length xs)"

definition std_of :: "real list \<Rightarrow> real" where
  "std_of xs = sqrt (sum_list (map (\<lambda>x. \<bar>x - mean_of xs\<bar> ^ 2) xs) / real (length xs))"

definition np_mean :: "real list \<Rightarrow> npfloat" where
  "np_mean xs = (if xs = [] then NaN else Fin (mean_of xs))"

definition np_std :: "real list \<Rightarrow> npfloat" where
  "np_std xs = (if xs = [] then NaN else Fin (std_of xs))"

subsection \<open>The bounded deque\<close>

text \<open>
  \<^verbatim>\<open>collections.deque(maxlen=n)\<close>: the constructor raises ValueError for a negative
  \<^verbatim>\<open>maxlen\<close>; \<^verbatim>\<open>append\<close> adds on the right and, when the length then exceeds
  \<^verbatim>\<open>maxlen\<close>, removes one element on the left.
\<close>

record deque =
  maxlen :: nat
  items :: "real list"

definition deque_new :: "int \<Rightarrow> error + deque" where
  "deque_new n = (if n < 0 then Inl ValueError else Inr \<lparr>maxlen = nat n, items = []\<rparr>)"

definition deque_append :: "deque \<Rightarrow> real \<Rightarrow> deque" where
  "deque_append d v =
     (let ys = items d @ [v]
      in d\<lparr>items := (if maxlen d < length ys then tl ys else ys)\<rparr>)"

subsection \<open>AnomalyDetector\<close>

text \<open>
  The attributes \<^verbatim>\<open>mean\<close> and \<^verbatim>\<open>std\<close> do not exist until
  \<^verbatim>\<open>update_statistics\<close> has run once: \<open>None\<close> is the missing attribute, and reading
  it is an AttributeError.
\<close>

record detector =
  window_size :: int
  threshold :: real
  values_deque :: deque
  is_initialized :: bool
  mean :: "npfloat option"
  std :: "npfloat option"

definition AnomalyDetector_init :: "int \<Rightarrow> real \<Rightarrow> error + detector" where
  "AnomalyDetector_init ws th =
     (case deque_new ws of
        Inl e \<Rightarrow> Inl e
      | Inr d \<Rightarrow> Inr \<lparr>window_size = ws, threshold = th, values_deque = d,
                      is_initialized = False, mean = None, std = None\<rparr>)"

definition update_statistics :: "detector \<Rightarrow> detector" where
  "update_statistics s =
     s\<lparr>mean := Some (np_mean (items (values_deque s))),
       std := Some (np_std (items (values_deque s)))\<rparr>"

definition eps :: real where
  "eps = 1 / 10 ^ 10"

definition z_score_of :: "real \<Rightarrow> npfloat \<Rightarrow> npfloat \<Rightarrow> npfloat" where
  "z_score_of v m sd = np_div (np_sub (Fin v) m) (np_add sd (Fin eps))"

definition is_anomaly :: "detector \<Rightarrow> real \<Rightarrow> error + (bool \<times> detector)" where
  "is_anomaly s v =
     (if int (length (items (values_deque s))) < window_size s div 2 then
        Inr (False, s\<lparr>values_deque := deque_append (values_deque s) v\<rparr>)
      else
        let s1 = (if \<not> is_initialized s
                  then (update_statistics s)\<lparr>is_initialized := True\<rparr> else s)
        in case mean s1 of
             None \<Rightarrow> Inl AttributeError
           | Some m \<Rightarrow>
              (case std s1 of
                 None \<Rightarrow> Inl AttributeError
               | Some sd \<Rightarrow>
                  let z_score = z_score_of v m sd;
                      s2 = s1\<lparr>values_deque := deque_append (values_deque s1) v\<rparr>;
                      s3 = update_statistics s2
                  in Inr (np_gt (np_abs z_score) (threshold s3), s3)))"

text \<open>The driver loop of the tests and of \<^verbatim>\<open>main.py\<close>: one call per sample, in order.\<close>

fun feed :: "detector \<Rightarrow> real list \<Rightarrow> error + (bool list \<times> detector)" where
  "feed s [] = Inr ([], s)"
| "feed s (v # vs) =
     (case is_anomaly s v of
        Inl e \<Rightarrow> Inl e
      | Inr (b, s') \<Rightarrow>
         (case feed s' vs of
            Inl e \<Rightarrow> Inl e
          | Inr (bs, s'') \<Rightarrow> Inr (b # bs, s'')))"

definition run_detector :: "int \<Rightarrow> real \<Rightarrow> real list \<Rightarrow> error + (bool list \<times> detector)" where
  "run_detector ws th xs =
     (case AnomalyDetector_init ws th of Inl e \<Rightarrow> Inl e | Inr s0 \<Rightarrow> feed s0 xs)"

text \<open>
  What the detector's own calls keep true of its state: the deque is bounded by the
  window size; once the flag is set the cached statistics are those of the window; until
  then the two attributes do not exist.
\<close>

definition detector_inv :: "detector \<Rightarrow> bool" where
  "detector_inv s \<longleftrightarrow>
     0 \<le> window_size s \<and>
     maxlen (values_deque s) = nat (window_size s) \<and>
     length (items (values_deque s)) \<le> maxlen (values_deque s) \<and>
     (is_initialized s \<longrightarrow>
        window_size s div 2 \<le> int (length (items (values_deque s))) \<and>
        mean s = Some (np_mean (items (values_deque s))) \<and>
        std s = Some (np_std (items (values_deque s)))) \<and>
     (\<not> is_initialized s \<longrightarrow> mean s = None \<and> std s = None)"

text \<open>The last \<open>n\<close> elements of a list, in their order (all of them when there are fewer).\<close>

definition last_n :: "nat \<Rightarrow> 'a list \<Rightarrow> 'a list" where
  "last_n n xs = drop (length xs - n) xs"

text \<open>
  The test the specification words: the magnitude of \<open>(value - mean) / (std_dev + 1e-10)\<close>
  exceeds the threshold, with the mean and the standard deviation of a given window.
\<close>

definition spec_z_test :: "real list \<Rightarrow> real \<Rightarrow> real \<Rightarrow> bool" where
  "spec_z_test w th v \<longleftrightarrow> th < \<bar>(v - mean_of w) / (std_of w + eps)\<bar>"

subsection \<open>DataStreamSimulator\<close>

text \<open>
  The generator reads numpy's global random state.  The model makes the underlying draws
  of one call an argument: a standard normal variate, the value of
  \<^verbatim>\<open>np.random.random()\<close> (in \<open>[0, 1)\<close>), the index \<^verbatim>\<open>np.random.choice\<close> picks
  and the unit variate behind \<^verbatim>\<open>np.random.uniform\<close>.  The three library functions are
  then what numpy computes from those: \<^verbatim>\<open>normal(loc, scale)\<close> is
  \<open>loc + scale * g\<close> and raises ValueError for a negative scale,
  \<^verbatim>\<open>uniform(low, high)\<close> is \<open>low + (high - low) * u\<close>, and \<^verbatim>\<open>choice(a)\<close> is the
  element of \<open>a\<close> at the drawn index.
\<close>

record draws =
  gauss :: real
  random01 :: real
  choice_index :: nat
  uniform01 :: real

definition np_random_normal :: "real \<Rightarrow> real \<Rightarrow> real \<Rightarrow> error + real" where
  "np_random_normal loc scale g = (if scale < 0 then Inl ValueError else Inr (loc + scale * g))"

definition np_random_uniform :: "real \<Rightarrow> real \<Rightarrow> real \<Rightarrow> real" where
  "np_random_uniform low high u = low + (high - low) * u"

definition np_random_choice :: "int list \<Rightarrow> nat \<Rightarrow> int" where
  "np_random_choice a i = a ! i"

record simulator =
  seasonal_period :: int
  trend_factor :: real
  noise_level :: real
  counter :: int

text \<open>The constructor only stores its arguments: it has no failing branch.\<close>

definition DataStreamSimulator_init :: "int \<Rightarrow> real \<Rightarrow> real \<Rightarrow> error + simulator" where
  "DataStreamSimulator_init sp tf nl =
     Inr \<lparr>seasonal_period = sp, trend_factor = tf, noise_level = nl, counter = 0\<rparr>"

text \<open>
  \<^verbatim>\<open>2 * np.pi * self.counter\<close> is a Python float, so dividing it by the integer 0
  raises ZeroDivisionError.
\<close>

definition anomaly_term :: "draws \<Rightarrow> real" where
  "anomaly_term d =
     (if random01 d < 1 / 100 then
        let direction = np_random_choice [- 1, 1] (choice_index d);
            magnitude = np_random_uniform 5 10 (uniform01 d);
            magnitude = (if direction = - 1 then magnitude * (3 / 2) else magnitude)
        in real_of_int direction * magnitude
      else 0)"

definition get_next_value :: "draws \<Rightarrow> simulator \<Rightarrow> error + (real \<times> simulator)" where
  "get_next_value d g =
     (if seasonal_period g = 0 then Inl ZeroDivisionError
      else
        let seasonal = sin (2 * pi * real_of_int (counter g) / real_of_int (seasonal_period g));
            trend = trend_factor g * real_of_int (counter g)
        in case np_random_normal 0 (noise_level g) (gauss d) of
             Inl e \<Rightarrow> Inl e
           | Inr noise \<Rightarrow>
              let anomaly = anomaly_term d
              in Inr (seasonal + trend + noise + anomaly, g\<lparr>counter := counter g + 1\<rparr>))"

text \<open>Successive calls, one record of draws per call (the list comprehension of the tests).\<close>

fun generate :: "simulator \<Rightarrow> draws list \<Rightarrow> error + (real list \<times> simulator)" where
  "generate g [] = Inr ([], g)"
| "generate g (d # ds) =
     (case get_next_value d g of
        Inl e \<Rightarrow> Inl e
      | Inr (x, g') \<Rightarrow>
         (case generate g' ds of
            Inl e \<Rightarrow> Inl e
          | Inr (xs, g'') \<Rightarrow> Inr (x # xs, g'')))"

text \<open>
  The value the specification describes for step \<open>n\<close>: the sum of the seasonal term, the
  trend term, the noise term and the outlier term.
\<close>

definition value_at :: "simulator \<Rightarrow> int \<Rightarrow> draws \<Rightarrow> real" where
  "value_at g n d =
     sin (2 * pi * real_of_int n / real_of_int (seasonal_period g))
     + trend_factor g * real_of_int n
     + noise_level g * gauss d
     + anomaly_term d"

section \<open>Properties of the detector\<close>

subsection \<open>The deque and the invariant\<close>

lemma maxlen_deque_append [simp]: "maxlen (deque_append d v) = maxlen d"
  by (simp add: deque_append_def Let_def)

lemma length_deque_append:
  "length (items d) \<le> maxlen d \<Longrightarrow>
   length (items (deque_append d v)) = min (Suc (length (items d))) (maxlen d)"
  by (auto simp: deque_append_def Let_def)

lemma tl_eq_drop1: "tl ys = drop (Suc 0) ys"
  by (cases ys) simp_all

lemma items_deque_append:
  "length (items d) \<le> maxlen d \<Longrightarrow>
   items (deque_append d v) = last_n (maxlen d) (items d @ [v])"
proof (cases "maxlen d < Suc (length (items d))")
  case True
  assume "length (items d) \<le> maxlen d"
  with True have "Suc (length (items d)) - maxlen d = Suc 0" by simp
  with True show ?thesis
    by (simp add: deque_append_def Let_def last_n_def tl_eq_drop1 del: drop_append)
next
  case False
  then show ?thesis
    by (simp add: deque_append_def Let_def last_n_def)
qed

lemma last_n_last_n_append:
  "last_n n (last_n n xs @ ys) = last_n n (xs @ ys)"
proof (cases "n \<le> length xs")
  case True
  then show ?thesis by (simp add: last_n_def add.commute)
next
  case False
  then show ?thesis by (simp add: last_n_def)
qed

lemma detector_inv_init:
  "AnomalyDetector_init ws th = Inr s0 \<Longrightarrow> detector_inv s0"
  by (auto simp: AnomalyDetector_init_def deque_new_def detector_inv_def split: if_splits)

lemma is_anomaly_warm_up:
  assumes "int (length (items (values_deque s))) < window_size s div 2"
  shows "is_anomaly s v = Inr (False, s\<lparr>values_deque := deque_append (values_deque s) v\<rparr>)"
  using assms by (simp add: is_anomaly_def)

lemma is_anomaly_classify:
  assumes "detector_inv s"
    and "\<not> int (length (items (values_deque s))) < window_size s div 2"
  shows "is_anomaly s v =
     Inr (np_gt (np_abs (z_score_of v (np_mean (items (values_deque s)))
                           (np_std (items (values_deque s))))) (threshold s),
          s\<lparr>values_deque := deque_append (values_deque s) v,
            is_initialized := True,
            mean := Some (np_mean (items (deque_append (values_deque s) v))),
            std := Some (np_std (items (deque_append (values_deque s) v)))\<rparr>)"
proof (cases "is_initialized s")
  case True
  with assms(1) have "mean s = Some (np_mean (items (values_deque s)))"
    and "std s = Some (np_std (items (values_deque s)))"
    by (simp_all add: detector_inv_def)
  with True assms(2) show ?thesis
    by (simp add: is_anomaly_def update_statistics_def Let_def)
next
  case False
  with assms(2) show ?thesis
    by (simp add: is_anomaly_def update_statistics_def Let_def)
qed


lemma is_anomaly_step:
  assumes "detector_inv s"
  shows "\<exists>b s'. is_anomaly s v = Inr (b, s') \<and> detector_inv s' \<and>
           window_size s' = window_size s \<and> threshold s' = threshold s \<and>
           values_deque s' = deque_append (values_deque s) v \<and>
           (is_initialized s' \<longleftrightarrow> window_size s div 2 \<le> int (length (items (values_deque s))))"
proof (cases "int (length (items (values_deque s))) < window_size s div 2")
  case True
  let ?s' = "s\<lparr>values_deque := deque_append (values_deque s) v\<rparr>"
  from True assms have uninit: "\<not> is_initialized s"
    by (auto simp: detector_inv_def)
  from assms have len: "length (items (deque_append (values_deque s) v)) \<le> maxlen (values_deque s)"
    by (simp add: detector_inv_def length_deque_append)
  from assms uninit len have "detector_inv ?s'"
    by (simp add: detector_inv_def)
  moreover have "is_anomaly s v = Inr (False, ?s')"
    by (rule is_anomaly_warm_up [OF True])
  ultimately show ?thesis using True uninit by auto
next
  case False
  let ?d = "deque_append (values_deque s) v"
  let ?s' = "s\<lparr>values_deque := ?d, is_initialized := True,
               mean := Some (np_mean (items ?d)), std := Some (np_std (items ?d))\<rparr>"
  from assms have bound: "length (items (values_deque s)) \<le> maxlen (values_deque s)"
    and ml: "maxlen (values_deque s) = nat (window_size s)" and ws: "0 \<le> window_size s"
    by (simp_all add: detector_inv_def)
  from bound have len: "length (items ?d) = min (Suc (length (items (values_deque s)))) (maxlen (values_deque s))"
    by (rule length_deque_append)
  from False ws ml have half: "window_size s div 2 \<le> int (length (items ?d))"
    unfolding len by simp
  from ws ml len half have "detector_inv ?s'"
    by (simp add: detector_inv_def)
  moreover note is_anomaly_classify [OF assms False, of v]
  ultimately show ?thesis using False by auto
qed

lemma feed_inv:
  assumes "detector_inv s"
  shows "\<exists>bs s'. feed s xs = Inr (bs, s') \<and> detector_inv s' \<and> length bs = length xs \<and>
           window_size s' = window_size s \<and> threshold s' = threshold s \<and>
           items (values_deque s') =
             last_n (nat (window_size s)) (items (values_deque s) @ xs)"
  using assms
proof (induction xs arbitrary: s)
  case Nil
  then show ?case by (simp add: detector_inv_def last_n_def)
next
  case (Cons v vs)
  from is_anomaly_step [OF Cons.prems, of v] obtain b s1 where
    step: "is_anomaly s v = Inr (b, s1)" and inv1: "detector_inv s1"
    and ws1: "window_size s1 = window_size s" and th1: "threshold s1 = threshold s"
    and dq1: "values_deque s1 = deque_append (values_deque s) v"
    by blast
  from Cons.IH [OF inv1] obtain bs s2 where
    rest: "feed s1 vs = Inr (bs, s2)" and inv2: "detector_inv s2"
    and len2: "length bs = length vs"
    and ws2: "window_size s2 = window_size s1" and th2: "threshold s2 = threshold s1"
    and it2: "items (values_deque s2) =
                last_n (nat (window_size s1)) (items (values_deque s1) @ vs)"
    by blast
  from Cons.prems have "items (values_deque s1) =
      last_n (nat (window_size s)) (items (values_deque s) @ [v])"
    by (simp add: dq1 items_deque_append detector_inv_def)
  with it2 ws1 have "items (values_deque s2) =
      last_n (nat (window_size s)) (items (values_deque s) @ v # vs)"
    by (simp add: last_n_last_n_append)
  with step rest inv2 len2 ws1 ws2 th1 th2 show ?case by simp
qed

lemma feed_append:
  "feed s (xs @ ys) =
     (case feed s xs of
        Inl e \<Rightarrow> Inl e
      | Inr (bs, s') \<Rightarrow>
         (case feed s' ys of
            Inl e \<Rightarrow> Inl e
          | Inr (bs', s'') \<Rightarrow> Inr (bs @ bs', s'')))"
  by (induction xs arbitrary: s) (auto split: sum.splits prod.splits)

lemma run_detector_reach:
  assumes "0 \<le> ws"
  shows "\<exists>bs s. run_detector ws th xs = Inr (bs, s) \<and> detector_inv s \<and>
           length bs = length xs \<and> window_size s = ws \<and> threshold s = th \<and>
           items (values_deque s) = last_n (nat ws) xs"
proof -
  from assms obtain s0 where init: "AnomalyDetector_init ws th = Inr s0"
    and s0: "window_size s0 = ws" "threshold s0 = th" "items (values_deque s0) = []"
    by (simp add: AnomalyDetector_init_def deque_new_def)
  from feed_inv [OF detector_inv_init [OF init], of xs] s0 init show ?thesis
    by (auto simp: run_detector_def)
qed

lemma run_detector_snoc:
  "run_detector ws th (xs @ [v]) =
     (case run_detector ws th xs of
        Inl e \<Rightarrow> Inl e
      | Inr (bs, s) \<Rightarrow>
         (case is_anomaly s v of
            Inl e \<Rightarrow> Inl e
          | Inr (b, s') \<Rightarrow> Inr (bs @ [b], s')))"
  by (auto simp: run_detector_def feed_append split: sum.splits prod.splits)


subsection \<open>The window is bounded and first-in first-out\<close>

text \<open>
  Claim C4.  For a detector that was constructed (\<open>0 \<le> ws\<close>) and fed any samples
  \<open>xs\<close> through \<open>is_anomaly\<close>: every call returns; the window never holds more than
  \<open>ws\<close> samples and is exactly the last \<open>ws\<close> samples fed, in arrival order; so after
  \<open>ws + k\<close> samples it is full and equals \<open>xs\<close> without its first \<open>k\<close> samples.  The
  next call appends its sample when the window is below capacity, and, for a positive
  capacity, drops exactly the oldest sample when the window is full.
\<close>

theorem window_bounded_fifo:
  assumes "0 \<le> ws"
  shows "\<exists>bs s. run_detector ws th xs = Inr (bs, s) \<and>
           length (items (values_deque s)) \<le> nat ws \<and>
           items (values_deque s) = last_n (nat ws) xs \<and>
           (length xs = nat ws + k \<longrightarrow>
              length (items (values_deque s)) = nat ws \<and> items (values_deque s) = drop k xs) \<and>
           (\<exists>b s'. is_anomaly s v = Inr (b, s') \<and>
              (length (items (values_deque s)) < nat ws \<longrightarrow>
                 items (values_deque s') = items (values_deque s) @ [v]) \<and>
              (0 < ws \<and> length (items (values_deque s)) = nat ws \<longrightarrow>
                 items (values_deque s') = tl (items (values_deque s)) @ [v]))"
proof -
  from run_detector_reach [OF assms, of th xs] obtain bs s where
    run: "run_detector ws th xs = Inr (bs, s)" and inv: "detector_inv s"
    and ws: "window_size s = ws"
    and it: "items (values_deque s) = last_n (nat ws) xs"
    by blast
  from inv ws have ml: "maxlen (values_deque s) = nat ws"
    and bound: "length (items (values_deque s)) \<le> nat ws"
    by (simp_all add: detector_inv_def)
  from is_anomaly_step [OF inv, of v] obtain b s' where
    st: "is_anomaly s v = Inr (b, s')"
    and dq: "values_deque s' = deque_append (values_deque s) v"
    by blast
  have below: "length (items (values_deque s)) < nat ws \<longrightarrow>
      items (values_deque s') = items (values_deque s) @ [v]"
    by (simp add: dq deque_append_def Let_def ml)
  have full: "0 < ws \<and> length (items (values_deque s)) = nat ws \<longrightarrow>
      items (values_deque s') = tl (items (values_deque s)) @ [v]"
  proof
    assume a: "0 < ws \<and> length (items (values_deque s)) = nat ws"
    then have "items (values_deque s) \<noteq> []" by auto
    with a show "items (values_deque s') = tl (items (values_deque s)) @ [v]"
      by (simp add: dq deque_append_def Let_def ml)
  qed
  have evict: "length xs = nat ws + k \<longrightarrow>
      length (items (values_deque s)) = nat ws \<and> items (values_deque s) = drop k xs"
    by (simp add: it last_n_def)
  from run bound it evict st below full show ?thesis by blast
qed

theorem window_bounded_fifo_witness:
  "(0::int) \<le> 2 \<and>
   (\<exists>bs s. run_detector 2 (5 / 2) [1, 2, 3] = Inr (bs, s) \<and>
      length [1, 2, 3 :: real] = nat 2 + 1 \<and>
      items (values_deque s) = [2, 3] \<and>
      0 < (2::int) \<and> length (items (values_deque s)) = nat 2 \<and>
      (\<exists>b s'. is_anomaly s 4 = Inr (b, s') \<and> items (values_deque s') = [3, 4])) \<and>
   (0::int) \<le> 3 \<and>
   (\<exists>bs s. run_detector 3 (5 / 2) [1] = Inr (bs, s) \<and>
      items (values_deque s) = [1] \<and>
      length (items (values_deque s)) < nat 3 \<and>
      (\<exists>b s'. is_anomaly s 4 = Inr (b, s') \<and> items (values_deque s') = [1, 4]))"
  using window_bounded_fifo [of 2 "5 / 2" "[1, 2, 3]" 1 4]
    window_bounded_fifo [of 3 "5 / 2" "[1]" 1 4]
  by (auto simp: last_n_def)

subsection \<open>The z-score of a sample against a window\<close>

lemma std_of_nonneg: "0 \<le> std_of xs"
proof -
  have "0 \<le> sum_list (map (\<lambda>x. \<bar>x - mean_of xs\<bar> ^ 2) xs)"
    by (rule sum_list_nonneg) auto
  then show ?thesis by (simp add: std_of_def)
qed

lemma eps_pos: "0 < eps"
  by (simp add: eps_def)

lemma z_score_of_window:
  assumes "w \<noteq> []"
  shows "z_score_of v (np_mean w) (np_std w) = Fin ((v - mean_of w) / (std_of w + eps))"
proof -
  from std_of_nonneg [of w] eps_pos have "std_of w + eps \<noteq> 0" by linarith
  with assms show ?thesis
    by (simp add: z_score_of_def np_mean_def np_std_def np_sub_def)
qed

lemma z_score_of_empty: "z_score_of v (np_mean []) (np_std []) = NaN"
  by (simp add: z_score_of_def np_mean_def np_std_def np_sub_def)

subsection \<open>Classification uses the window before the insertion\<close>

text \<open>
  Claim C1.  Take a constructed detector after any samples \<open>xs\<close>, so that its window is
  the last \<open>ws\<close> of them, and let the next call find at least \<open>ws div 2\<close> samples in
  the window.  The call returns, and its answer is the comparison of the threshold with
  the magnitude of the z-score of the new value against the mean and the standard
  deviation of that window, which does not contain the new value.  On a non-empty window
  this is the test \<open>th < \<bar>(v - mean) / (std + 1e-10)\<bar>\<close> on real numbers; on the empty
  window (possible only for \<open>ws \<le> 1\<close>) both statistics are NaN and the comparison is
  false.
\<close>

theorem classify_uses_preceding_window:
  assumes "0 \<le> ws"
  shows "\<exists>bs s. run_detector ws th xs = Inr (bs, s) \<and>
           items (values_deque s) = last_n (nat ws) xs \<and>
           (ws div 2 \<le> int (length (items (values_deque s))) \<longrightarrow>
              (\<exists>s'. is_anomaly s v =
                      Inr (np_gt (np_abs (z_score_of v (np_mean (items (values_deque s)))
                                            (np_std (items (values_deque s))))) th, s')) \<and>
              (items (values_deque s) \<noteq> [] \<longrightarrow>
                 (\<exists>s'. is_anomaly s v = Inr (spec_z_test (items (values_deque s)) th v, s'))))"
proof -
  from run_detector_reach [OF assms, of th xs] obtain bs s where
    run: "run_detector ws th xs = Inr (bs, s)" and inv: "detector_inv s"
    and ws: "window_size s = ws" and th: "threshold s = th"
    and it: "items (values_deque s) = last_n (nat ws) xs"
    by blast
  let ?w = "items (values_deque s)"
  have "\<exists>s'. is_anomaly s v = Inr (np_gt (np_abs (z_score_of v (np_mean ?w) (np_std ?w))) th, s')"
    if "ws div 2 \<le> int (length ?w)"
  proof -
    from that ws have "\<not> int (length ?w) < window_size s div 2" by simp
    from is_anomaly_classify [OF inv this, of v] th show ?thesis by simp
  qed
  moreover have "np_gt (np_abs (z_score_of v (np_mean ?w) (np_std ?w))) th = spec_z_test ?w th v"
    if "?w \<noteq> []"
    using that by (simp add: z_score_of_window spec_z_test_def)
  ultimately show ?thesis using run it by auto
qed

lemma spec_z_test_example: "spec_z_test [1, 1, 1] (5 / 2) 10"
  by (simp add: spec_z_test_def mean_of_def std_of_def eps_def)

theorem classify_uses_preceding_window_witness:
  "(0::int) \<le> 4 \<and>
   (\<exists>bs s. run_detector 4 (5 / 2) [1, 1, 1] = Inr (bs, s) \<and>
      items (values_deque s) = [1, 1, 1] \<and>
      4 div 2 \<le> int (length (items (values_deque s))) \<and>
      items (values_deque s) \<noteq> [] \<and>
      spec_z_test (items (values_deque s)) (5 / 2) 10 \<and>
      (\<exists>s'. is_anomaly s 10 = Inr (True, s')))"
  using classify_uses_preceding_window [of 4 "5 / 2" "[1, 1, 1]" 10] spec_z_test_example
  by (auto simp: last_n_def)

subsection \<open>The warm-up gate and the flag\<close>




subsection \<open>The cached statistics after a call\<close>

text \<open>
  Claim C5.  On a constructed detector after any samples, a call that finds at least
  \<open>ws div 2\<close> samples in the window (a call past warm-up) returns and leaves the
  attributes \<open>mean\<close> and \<open>std\<close> equal to \<open>np.mean\<close> and \<open>np.std\<close> of the window as
  it is after the call's own value was appended, which is the last \<open>ws\<close> of all the
  samples including the current one.
\<close>

theorem cached_statistics_post_insertion:
  assumes "0 \<le> ws"
  shows "\<exists>bs s. run_detector ws th xs = Inr (bs, s) \<and>
           items (values_deque s) = last_n (nat ws) xs \<and>
           (ws div 2 \<le> int (length (items (values_deque s))) \<longrightarrow>
              (\<exists>b s'. is_anomaly s v = Inr (b, s') \<and>
                 values_deque s' = deque_append (values_deque s) v \<and>
                 items (values_deque s') = last_n (nat ws) (xs @ [v]) \<and>
                 mean s' = Some (np_mean (items (values_deque s'))) \<and>
                 std s' = Some (np_std (items (values_deque s')))))"
proof -
  from run_detector_reach [OF assms, of th xs] obtain bs s where
    run: "run_detector ws th xs = Inr (bs, s)" and inv: "detector_inv s"
    and ws: "window_size s = ws"
    and it: "items (values_deque s) = last_n (nat ws) xs"
    by blast
  from inv ws have ml: "maxlen (values_deque s) = nat ws"
    and bound: "length (items (values_deque s)) \<le> maxlen (values_deque s)"
    by (simp_all add: detector_inv_def)
  have "\<exists>b s'. is_anomaly s v = Inr (b, s') \<and>
          values_deque s' = deque_append (values_deque s) v \<and>
          items (values_deque s') = last_n (nat ws) (xs @ [v]) \<and>
          mean s' = Some (np_mean (items (values_deque s'))) \<and>
          std s' = Some (np_std (items (values_deque s')))"
    if "ws div 2 \<le> int (length (items (values_deque s)))"
  proof -
    from that ws have "\<not> int (length (items (values_deque s))) < window_size s div 2" by simp
    note res = is_anomaly_classify [OF inv this, of v]
    have "items (deque_append (values_deque s) v) = last_n (nat ws) (xs @ [v])"
      using items_deque_append [OF bound, of v] ml it
      by (simp add: last_n_last_n_append)
    with res show ?thesis by simp
  qed
  with run it show ?thesis by blast
qed

lemma mean_std_example:
  "np_mean [5, 3] = Fin 4" "np_std [5, 3] = Fin 1"
  by (simp_all add: np_mean_def np_std_def mean_of_def std_of_def)

theorem cached_statistics_post_insertion_witness:
  "(0::int) \<le> 2 \<and>
   (\<exists>bs s. run_detector 2 (5 / 2) [1, 5] = Inr (bs, s) \<and>
      items (values_deque s) = [1, 5] \<and>
      (2::int) div 2 \<le> int (length (items (values_deque s))) \<and>
      (\<exists>b s'. is_anomaly s 3 = Inr (b, s') \<and>
         items (values_deque s') = [5, 3] \<and>
         mean s' = Some (Fin 4) \<and> std s' = Some (Fin 1)))"
proof -
  from cached_statistics_post_insertion [of 2 "5 / 2" "[1, 5]" 3]
  obtain bs s where run: "run_detector 2 (5 / 2) [1, 5] = Inr (bs, s)"
    and it: "items (values_deque s) = [1, 5]"
    and imp: "(2::int) div 2 \<le> int (length (items (values_deque s))) \<longrightarrow>
      (\<exists>b s'. is_anomaly s 3 = Inr (b, s') \<and>
         values_deque s' = deque_append (values_deque s) 3 \<and>
         items (values_deque s') = last_n (nat 2) ([1, 5] @ [3]) \<and>
         mean s' = Some (np_mean (items (values_deque s'))) \<and>
         std s' = Some (np_std (items (values_deque s'))))"
    unfolding last_n_def by auto
  from it have half: "(2::int) div 2 \<le> int (length (items (values_deque s)))" by simp
  with imp obtain b s' where st: "is_anomaly s 3 = Inr (b, s')"
    and it': "items (values_deque s') = last_n (nat 2) ([1, 5] @ [3])"
    and m: "mean s' = Some (np_mean (items (values_deque s')))"
    and sd: "std s' = Some (np_std (items (values_deque s')))"
    by blast
  from it' have w: "items (values_deque s') = [5, 3]" by (simp add: last_n_def)
  from m sd have "mean s' = Some (Fin 4)" "std s' = Some (Fin 1)"
    unfolding w mean_std_example by simp_all
  with run it half st w show ?thesis by auto
qed

subsection \<open>The window on which the statistics are computed\<close>



subsection \<open>Constant streams\<close>

lemma mean_of_replicate: "0 < n \<Longrightarrow> mean_of (replicate n c) = c"
  by (simp add: mean_of_def sum_list_replicate)

lemma std_of_replicate: "0 < n \<Longrightarrow> std_of (replicate n c) = 0"
  by (simp add: std_of_def mean_of_replicate sum_list_replicate comp_def)

lemma last_n_replicate: "last_n m (replicate n c) = replicate (min n m) c"
  by (simp add: last_n_def min_def)

lemma classify_constant_window:
  assumes "0 \<le> th"
  shows "\<not> np_gt (np_abs (z_score_of c (np_mean (replicate m c)) (np_std (replicate m c)))) th"
proof (cases "m = 0")
  case True
  then show ?thesis by (simp add: z_score_of_empty)
next
  case False
  then have "replicate m c \<noteq> []" by simp
  from z_score_of_window [OF this, of c] False assms show ?thesis
    by (simp add: mean_of_replicate)
qed

lemma run_constant:
  assumes "0 \<le> ws" and "0 \<le> th"
  shows "\<exists>s. run_detector ws th (replicate n c) = Inr (replicate n False, s) \<and>
           detector_inv s \<and> window_size s = ws \<and> threshold s = th \<and>
           items (values_deque s) = replicate (min n (nat ws)) c"
proof (induction n)
  case 0
  from run_detector_reach [OF assms(1), of th "[]"] show ?case
    by (auto simp: last_n_def)
next
  case (Suc n)
  then obtain s where run: "run_detector ws th (replicate n c) = Inr (replicate n False, s)"
    and inv: "detector_inv s" and ws: "window_size s = ws" and th: "threshold s = th"
    and it: "items (values_deque s) = replicate (min n (nat ws)) c"
    by blast
  from is_anomaly_step [OF inv, of c] obtain b s' where
    st: "is_anomaly s c = Inr (b, s')" and inv': "detector_inv s'"
    and ws': "window_size s' = window_size s" and th': "threshold s' = threshold s"
    and dq: "values_deque s' = deque_append (values_deque s) c"
    by blast
  have "b = False"
  proof (cases "int (length (items (values_deque s))) < window_size s div 2")
    case True
    from is_anomaly_warm_up [OF True, of c] st show ?thesis by simp
  next
    case False
    from is_anomaly_classify [OF inv False, of c] st
      classify_constant_window [OF assms(2), of c "min n (nat ws)"]
    show ?thesis by (simp add: it th)
  qed
  moreover from inv ws have bound: "length (items (values_deque s)) \<le> maxlen (values_deque s)"
    and ml: "maxlen (values_deque s) = nat ws"
    by (simp_all add: detector_inv_def)
  have "items (values_deque s') = replicate (min (Suc n) (nat ws)) c"
  proof -
    have "items (values_deque s') = last_n (nat ws) (replicate (min n (nat ws)) c @ [c])"
      using items_deque_append [OF bound, of c] by (simp add: dq ml it)
    also have "replicate (min n (nat ws)) c @ [c] = replicate (Suc (min n (nat ws))) c"
      by (simp add: replicate_append_same)
    also have "last_n (nat ws) \<dots> = replicate (min (Suc (min n (nat ws))) (nat ws)) c"
      by (rule last_n_replicate)
    also have "min (Suc (min n (nat ws))) (nat ws) = min (Suc n) (nat ws)"
      by simp
    finally show ?thesis .
  qed
  moreover have "run_detector ws th (replicate (Suc n) c) = Inr (replicate n False @ [b], s')"
  proof -
    have "replicate (Suc n) c = replicate n c @ [c]"
      by (simp add: replicate_append_same)
    then have "run_detector ws th (replicate (Suc n) c) = run_detector ws th (replicate n c @ [c])"
      by (rule arg_cong)
    also have "\<dots> = Inr (replicate n False @ [b], s')"
      using run st by (simp only: run_detector_snoc sum.case prod.case)
    finally show ?thesis .
  qed
  ultimately show ?case using inv' ws' th' ws th
    by (simp add: replicate_append_same)
qed



subsection \<open>A spike after a constant stream\<close>

lemma spike_window_stats:
  "mean_of [1, 1, 1, 1, 1, 1, 1, 1, 1, 10] = 19 / 10"
  "std_of [1, 1, 1, 1, 1, 1, 1, 1, 1, 10] = 27 / 10"
proof -
  show m: "mean_of [1, 1, 1, 1, 1, 1, 1, 1, 1, 10] = 19 / 10"
    by (simp add: mean_of_def)
  have "sqrt ((27 / 10) ^ 2) = (27 / 10 :: real)"
    by (simp del: power_divide)
  moreover have "sum_list (map (\<lambda>x. \<bar>x - 19 / 10\<bar> ^ 2) [1, 1, 1, 1, 1, 1, 1, 1, 1, 10 :: real]) / real 10
      = (27 / 10) ^ 2"
    by (simp add: power2_eq_square)
  ultimately show "std_of [1, 1, 1, 1, 1, 1, 1, 1, 1, 10] = 27 / 10"
    unfolding std_of_def m by simp
qed


lemma spike_after_constant:
  assumes "0 < n" and "n \<le> nat ws" and "ws div 2 \<le> int n"
  shows "\<exists>s. run_detector ws (5 / 2) (replicate n 1 @ [10]) = Inr (replicate n False @ [True], s) \<and>
           detector_inv s \<and> window_size s = ws \<and> threshold s = 5 / 2 \<and>
           items (values_deque s) = last_n (nat ws) (replicate n 1 @ [10])"
proof -
  from assms have ws: "0 \<le> ws" by simp
  from run_constant [OF ws, of "5 / 2" n 1] obtain s where
    run: "run_detector ws (5 / 2) (replicate n 1) = Inr (replicate n False, s)"
    and inv: "detector_inv s" and wss: "window_size s = ws" and th: "threshold s = 5 / 2"
    and it: "items (values_deque s) = replicate (min n (nat ws)) 1"
    by auto
  from assms it have w: "items (values_deque s) = replicate n 1" by (simp add: min_def)
  from assms w wss have past: "\<not> int (length (items (values_deque s))) < window_size s div 2"
    by simp
  from assms have ne: "replicate n (1::real) \<noteq> []" by simp
  have z: "z_score_of 10 (np_mean (replicate n 1)) (np_std (replicate n 1)) = Fin (9 / eps)"
    using z_score_of_window [OF ne, of 10] assms(1)
    by (simp add: mean_of_replicate std_of_replicate)
  have flagged: "np_gt (np_abs (Fin (9 / eps))) (5 / 2)"
    by (simp add: eps_def)
  from is_anomaly_step [OF inv, of 10] obtain b s' where
    st: "is_anomaly s 10 = Inr (b, s')" and inv': "detector_inv s'"
    and ws': "window_size s' = window_size s" and th': "threshold s' = threshold s"
    and dq: "values_deque s' = deque_append (values_deque s) 10"
    by blast
  from is_anomaly_classify [OF inv past, of 10] st z flagged have b: "b = True"
    by (simp add: w th)
  from inv wss have "length (items (values_deque s)) \<le> maxlen (values_deque s)"
    and "maxlen (values_deque s) = nat ws"
    by (simp_all add: detector_inv_def)
  with items_deque_append [of "values_deque s" 10] w dq
  have it': "items (values_deque s') = last_n (nat ws) (replicate n 1 @ [10])"
    by simp
  from run st b have "run_detector ws (5 / 2) (replicate n 1 @ [10]) =
      Inr (replicate n False @ [True], s')"
    by (simp only: run_detector_snoc sum.case prod.case)
  with inv' ws' th' wss th it' show ?thesis by auto
qed

text \<open>
  Claim C6.  With window size 5 and threshold 2.5, the stream 1, 1, 1, 1, 1, 10 is
  answered false five times and then true.  With window size 10 and threshold 2.5, ten
  1s followed by 10 and then 1 are answered false ten times, then true for the 10, then
  false for the final 1: the window then holds nine 1s and the 10, with mean 1.9 and
  standard deviation 2.7, against which the z-score of 1 has magnitude below 2.5.
\<close>

theorem spike_detection_and_recovery:
  "(\<exists>s. run_detector 5 (5 / 2) [1, 1, 1, 1, 1, 10] =
          Inr ([False, False, False, False, False, True], s)) \<and>
   (\<exists>s. run_detector 10 (5 / 2) [1, 1, 1, 1, 1, 1, 1, 1, 1, 1, 10, 1] =
          Inr ([False, False, False, False, False, False, False, False, False, False,
                True, False], s))"
proof
  from spike_after_constant [of 5 5] obtain s where
    "run_detector 5 (5 / 2) (replicate 5 1 @ [10]) = Inr (replicate 5 False @ [True], s)"
    by auto
  then show "\<exists>s. run_detector 5 (5 / 2) [1, 1, 1, 1, 1, 10] =
          Inr ([False, False, False, False, False, True], s)"
    by (simp add: numeral_eq_Suc)
next
  let ?w = "[1, 1, 1, 1, 1, 1, 1, 1, 1, 10 :: real]"
  from spike_after_constant [of 10 10] obtain s where
    run: "run_detector 10 (5 / 2) (replicate 10 1 @ [10]) = Inr (replicate 10 False @ [True], s)"
    and inv: "detector_inv s" and ws: "window_size s = 10" and th: "threshold s = 5 / 2"
    and it: "items (values_deque s) = last_n (nat 10) (replicate 10 1 @ [10])"
    by auto
  from it have w: "items (values_deque s) = ?w"
    by (simp add: last_n_def numeral_eq_Suc)
  with ws have past: "\<not> int (length (items (values_deque s))) < window_size s div 2"
    by simp
  have "z_score_of 1 (np_mean ?w) (np_std ?w) = Fin ((1 - 19 / 10) / (27 / 10 + eps))"
    using z_score_of_window [of ?w 1] by (simp add: spike_window_stats)
  moreover have "\<not> np_gt (np_abs (Fin ((1 - 19 / 10) / (27 / 10 + eps)))) (5 / 2)"
    by (simp add: eps_def)
  ultimately have calm: "\<not> np_gt (np_abs (z_score_of 1 (np_mean ?w) (np_std ?w))) (5 / 2)"
    by simp
  from is_anomaly_classify [OF inv past, of 1] calm obtain s' where
    st: "is_anomaly s 1 = Inr (False, s')"
    by (simp add: w th)
  from run st have "run_detector 10 (5 / 2) ((replicate 10 1 @ [10]) @ [1]) =
      Inr ((replicate 10 False @ [True]) @ [False], s')"
    by (simp only: run_detector_snoc sum.case prod.case)
  then show "\<exists>s. run_detector 10 (5 / 2) [1, 1, 1, 1, 1, 1, 1, 1, 1, 1, 10, 1] =
          Inr ([False, False, False, False, False, False, False, False, False, False,
                True, False], s)"
    by (simp add: numeral_eq_Suc)
qed

section \<open>Construction\<close>

text \<open>
  Neither constructor validates its arguments.  A window size of 0, a threshold of 0 or
  below, and a seasonal period of 0 or below are all accepted: the five constructions
  below succeed.
\<close>

theorem construction_validation_counterexample:
  "AnomalyDetector_init 0 3 =
     Inr \<lparr>window_size = 0, threshold = 3, values_deque = \<lparr>maxlen = 0, items = []\<rparr>,
          is_initialized = False, mean = None, std = None\<rparr> \<and>
   AnomalyDetector_init 100 0 =
     Inr \<lparr>window_size = 100, threshold = 0, values_deque = \<lparr>maxlen = 100, items = []\<rparr>,
          is_initialized = False, mean = None, std = None\<rparr> \<and>
   AnomalyDetector_init 100 (- 1) =
     Inr \<lparr>window_size = 100, threshold = - 1, values_deque = \<lparr>maxlen = 100, items = []\<rparr>,
          is_initialized = False, mean = None, std = None\<rparr> \<and>
   DataStreamSimulator_init 0 (1 / 10) (1 / 2) =
     Inr \<lparr>seasonal_period = 0, trend_factor = 1 / 10, noise_level = 1 / 2, counter = 0\<rparr> \<and>
   DataStreamSimulator_init (- 24) (1 / 10) (1 / 2) =
     Inr \<lparr>seasonal_period = - 24, trend_factor = 1 / 10, noise_level = 1 / 2, counter = 0\<rparr>"
  by (simp add: AnomalyDetector_init_def deque_new_def DataStreamSimulator_init_def)

text \<open>
  Claim C3, as the code has it.  Constructing a detector fails exactly for a negative
  window size, with the ValueError of the deque; for every other window size and for
  every threshold it succeeds and stores its arguments.  Constructing a generator always
  succeeds.  A seasonal period of 0 shows only later, as the ZeroDivisionError of
  \<open>get_next_value\<close>.
\<close>

theorem construction_validation:
  "(AnomalyDetector_init ws th = Inl ValueError \<longleftrightarrow> ws < 0) \<and>
   (0 \<le> ws \<longrightarrow>
      AnomalyDetector_init ws th =
        Inr \<lparr>window_size = ws, threshold = th, values_deque = \<lparr>maxlen = nat ws, items = []\<rparr>,
             is_initialized = False, mean = None, std = None\<rparr>) \<and>
   DataStreamSimulator_init sp tf nl =
     Inr \<lparr>seasonal_period = sp, trend_factor = tf, noise_level = nl, counter = 0\<rparr> \<and>
   (seasonal_period g = 0 \<longrightarrow> get_next_value d g = Inl ZeroDivisionError)"
  by (simp add: AnomalyDetector_init_def deque_new_def DataStreamSimulator_init_def
      get_next_value_def)

theorem construction_validation_witness:
  "AnomalyDetector_init (- 1) 3 = Inl ValueError \<and> (- 1 :: int) < 0 \<and>
   (0::int) \<le> 0 \<and>
   AnomalyDetector_init 0 0 =
     Inr \<lparr>window_size = 0, threshold = 0, values_deque = \<lparr>maxlen = 0, items = []\<rparr>,
          is_initialized = False, mean = None, std = None\<rparr> \<and>
   seasonal_period \<lparr>seasonal_period = 0, trend_factor = 0, noise_level = 0, counter = 0\<rparr> = 0 \<and>
   get_next_value \<lparr>gauss = 0, random01 = 1 / 2, choice_index = 0, uniform01 = 0\<rparr>
     \<lparr>seasonal_period = 0, trend_factor = 0, noise_level = 0, counter = 0\<rparr>
     = Inl ZeroDivisionError"
  using construction_validation [of "- 1" 3 0 0 0
      "\<lparr>seasonal_period = 0, trend_factor = 0, noise_level = 0, counter = 0\<rparr>"
      "\<lparr>gauss = 0, random01 = 1 / 2, choice_index = 0, uniform01 = 0\<rparr>"]
    construction_validation [of 0 0 0 0 0
      "\<lparr>seasonal_period = 0, trend_factor = 0, noise_level = 0, counter = 0\<rparr>"
      "\<lparr>gauss = 0, random01 = 1 / 2, choice_index = 0, uniform01 = 0\<rparr>"]
  by simp

section \<open>Properties of the generator\<close>

lemma get_next_value_ok:
  assumes "seasonal_period g \<noteq> 0" and "0 \<le> noise_level g"
  shows "get_next_value d g = Inr (value_at g (counter g) d, g\<lparr>counter := counter g + 1\<rparr>)"
  using assms by (simp add: get_next_value_def np_random_normal_def value_at_def Let_def)

lemma generate_ok:
  assumes "seasonal_period g \<noteq> 0" and "0 \<le> noise_level g"
  shows "\<exists>xs g'. generate g ds = Inr (xs, g') \<and> length xs = length ds \<and>
           g' = g\<lparr>counter := counter g + int (length ds)\<rparr> \<and>
           (\<forall>i<length ds. xs ! i = value_at g (counter g + int i) (ds ! i))"
  using assms
proof (induction ds arbitrary: g)
  case Nil
  then show ?case by simp
next
  case (Cons d ds)
  let ?g1 = "g\<lparr>counter := counter g + 1\<rparr>"
  from Cons.prems have step: "get_next_value d g = Inr (value_at g (counter g) d, ?g1)"
    by (rule get_next_value_ok)
  from Cons.prems have "seasonal_period ?g1 \<noteq> 0" "0 \<le> noise_level ?g1" by simp_all
  from Cons.IH [OF this] obtain xs g' where
    rest: "generate ?g1 ds = Inr (xs, g')" and len: "length xs = length ds"
    and g': "g' = ?g1\<lparr>counter := counter ?g1 + int (length ds)\<rparr>"
    and nth: "\<forall>i<length ds. xs ! i = value_at ?g1 (counter ?g1 + int i) (ds ! i)"
    by blast
  have same: "value_at ?g1 n e = value_at g n e" for n e
    by (simp add: value_at_def)
  have "\<forall>i<length (d # ds). (value_at g (counter g) d # xs) ! i =
      value_at g (counter g + int i) ((d # ds) ! i)"
  proof (intro allI impI)
    fix i assume "i < length (d # ds)"
    then show "(value_at g (counter g) d # xs) ! i =
        value_at g (counter g + int i) ((d # ds) ! i)"
    proof (cases i)
      case 0
      then show ?thesis by simp
    next
      case (Suc j)
      with \<open>i < length (d # ds)\<close> have "j < length ds" by simp
      with nth have "xs ! j = value_at g (counter g + 1 + int j) (ds ! j)"
        by (simp add: same)
      moreover have "counter g + 1 + int j = counter g + int (Suc j)" by simp
      ultimately show ?thesis unfolding Suc by (simp only: nth_Cons_Suc)
    qed
  qed
  with step rest len g' show ?case by simp
qed


lemma anomaly_term_cases:
  "1 / 100 \<le> random01 d \<Longrightarrow> anomaly_term d = 0"
  "random01 d < 1 / 100 \<Longrightarrow> choice_index d = 1 \<Longrightarrow>
     anomaly_term d = np_random_uniform 5 10 (uniform01 d)"
  "random01 d < 1 / 100 \<Longrightarrow> choice_index d = 0 \<Longrightarrow>
     anomaly_term d = - (np_random_uniform 5 10 (uniform01 d) * (3 / 2))"
  by (simp_all add: anomaly_term_def np_random_choice_def Let_def)

lemma np_random_uniform_range:
  "0 \<le> u \<Longrightarrow> u < 1 \<Longrightarrow> 5 \<le> np_random_uniform 5 10 u \<and> np_random_uniform 5 10 u < 10"
  by (simp add: np_random_uniform_def)



lemma anomaly_zero_iff:
  assumes "0 \<le> uniform01 d" and "choice_index d < 2"
  shows "anomaly_term (d\<lparr>random01 := r\<rparr>) = 0 \<longleftrightarrow> 1 / 100 \<le> r"
proof (cases "r < 1 / 100")
  case True
  from assms(1) have "0 < np_random_uniform 5 10 (uniform01 d)"
    by (simp add: np_random_uniform_def add_pos_nonneg)
  moreover from assms(2) have "choice_index d = 0 \<or> choice_index d = 1" by auto
  ultimately have "anomaly_term (d\<lparr>random01 := r\<rparr>) \<noteq> 0"
    using True by (auto simp: anomaly_term_def np_random_choice_def Let_def)
  with True show ?thesis by simp
next
  case False
  then show ?thesis by (simp add: anomaly_term_def)
qed


lemma anomaly_zero_event:
  assumes "0 \<le> uniform01 d" and "choice_index d < 2"
  shows "{r. 0 \<le> r \<and> r < 1 \<and> anomaly_term (d\<lparr>random01 := r\<rparr>) = 0} = {1 / 100 ..< 1}"
proof (rule set_eqI)
  fix r :: real
  from anomaly_zero_iff [OF assms, of r]
  show "r \<in> {r. 0 \<le> r \<and> r < 1 \<and> anomaly_term (d\<lparr>random01 := r\<rparr>) = 0} \<longleftrightarrow>
        r \<in> {1 / 100 ..< 1}"
    by (simp only: mem_Collect_eq atLeastLessThan_iff) linarith
qed


lemma generate_pure_seasonal:
  assumes "seasonal_period g \<noteq> 0" and "trend_factor g = 0" and "noise_level g = 0"
    and "counter g = 0" and quiet: "\<forall>e\<in>set ds. 1 / 100 \<le> random01 e"
  shows "\<exists>g'. generate g ds =
           Inr (map (\<lambda>n. sin (2 * pi * real n / real_of_int (seasonal_period g)))
                  [0..<length ds], g')"
proof -
  from assms(3) have nl: "0 \<le> noise_level g" by simp
  from generate_ok [OF assms(1) nl, of ds] obtain xs g' where
    gen: "generate g ds = Inr (xs, g')" and len: "length xs = length ds"
    and nth: "\<forall>i<length ds. xs ! i = value_at g (counter g + int i) (ds ! i)"
    by blast
  have "xs = map (\<lambda>n. sin (2 * pi * real n / real_of_int (seasonal_period g))) [0..<length ds]"
  proof (rule nth_equalityI)
    show "length xs = length (map (\<lambda>n. sin (2 * pi * real n / real_of_int (seasonal_period g)))
        [0..<length ds])"
      using len by simp
  next
    fix i assume "i < length xs"
    with len have i: "i < length ds" by simp
    then have "ds ! i \<in> set ds" by simp
    with quiet have "1 / 100 \<le> random01 (ds ! i)" by blast
    then have zero: "anomaly_term (ds ! i) = 0" by (rule anomaly_term_cases)
    from nth i have "xs ! i = value_at g (counter g + int i) (ds ! i)" by blast
    also have "\<dots> = sin (2 * pi * real i / real_of_int (seasonal_period g))"
      by (simp add: value_at_def zero assms(2,3,4))
    finally show "xs ! i =
        map (\<lambda>n. sin (2 * pi * real n / real_of_int (seasonal_period g))) [0..<length ds] ! i"
      using i by simp
  qed
  with gen show ?thesis by blast
qed

text \<open>
  Claim C8.  For a generator with a non-zero seasonal period and a noise level that is
  not negative, every call returns, and its value is the sum of four terms: the seasonal
  term \<open>sin (2 * pi * counter / seasonal_period)\<close>, the trend term
  \<open>trend_factor * counter\<close>, the noise term \<open>noise_level * g\<close> for the standard normal
  draw \<open>g\<close>, and the outlier term; the counter grows by exactly 1 and nothing else
  changes, so after any number of calls it has grown by that number.  The outlier term is
  0 when the uniform draw is at least 0.01; below that it is the magnitude
  \<open>5 + 5 * u\<close>, which lies in \<open>[5, 10)\<close> for \<open>u\<close> in \<open>[0, 1)\<close>, taken positive when
  the sign drawn is 1, and taken negative and multiplied by 1.5 when the sign drawn is
  -1.  Among the draws in \<open>[0, 1)\<close>, those with outlier term 0 are exactly the interval
  \<open>[0.01, 1)\<close>, of length 0.99.  With trend factor 0 and noise level 0, starting from
  counter 0 and without outlier draws, the values are \<open>sin (2 * pi * n / seasonal_period)\<close>
  for \<open>n = 0, 1, 2, ...\<close>.
\<close>

theorem get_next_value_structure:
  assumes "seasonal_period g \<noteq> 0" and "0 \<le> noise_level g"
  shows "get_next_value d g =
           Inr (sin (2 * pi * real_of_int (counter g) / real_of_int (seasonal_period g))
                + trend_factor g * real_of_int (counter g)
                + noise_level g * gauss d
                + anomaly_term d,
                g\<lparr>counter := counter g + 1\<rparr>) \<and>
         (1 / 100 \<le> random01 d \<longrightarrow> anomaly_term d = 0) \<and>
         (random01 d < 1 / 100 \<and> choice_index d = 1 \<longrightarrow>
            anomaly_term d = np_random_uniform 5 10 (uniform01 d)) \<and>
         (random01 d < 1 / 100 \<and> choice_index d = 0 \<longrightarrow>
            anomaly_term d = - (np_random_uniform 5 10 (uniform01 d) * (3 / 2))) \<and>
         (0 \<le> uniform01 d \<and> uniform01 d < 1 \<longrightarrow>
            5 \<le> np_random_uniform 5 10 (uniform01 d) \<and>
            np_random_uniform 5 10 (uniform01 d) < 10) \<and>
         (0 \<le> uniform01 d \<and> choice_index d < 2 \<longrightarrow>
            {r. 0 \<le> r \<and> r < 1 \<and> anomaly_term (d\<lparr>random01 := r\<rparr>) = 0} = {1 / 100 ..< 1}) \<and>
         (\<exists>xs g'. generate g ds = Inr (xs, g') \<and> length xs = length ds \<and>
            g' = g\<lparr>counter := counter g + int (length ds)\<rparr> \<and>
            (\<forall>i<length ds. xs ! i = value_at g (counter g + int i) (ds ! i))) \<and>
         (trend_factor g = 0 \<and> noise_level g = 0 \<and> counter g = 0 \<and>
          (\<forall>e\<in>set ds. 1 / 100 \<le> random01 e) \<longrightarrow>
            (\<exists>g'. generate g ds =
               Inr (map (\<lambda>n. sin (2 * pi * real n / real_of_int (seasonal_period g)))
                      [0..<length ds], g')))"
proof -
  have c1: "get_next_value d g =
           Inr (sin (2 * pi * real_of_int (counter g) / real_of_int (seasonal_period g))
                + trend_factor g * real_of_int (counter g)
                + noise_level g * gauss d
                + anomaly_term d,
                g\<lparr>counter := counter g + 1\<rparr>)"
    using get_next_value_ok [OF assms, of d] by (simp only: value_at_def)
  have c2: "1 / 100 \<le> random01 d \<longrightarrow> anomaly_term d = 0"
    using anomaly_term_cases(1) [of d] by blast
  have c3: "random01 d < 1 / 100 \<and> choice_index d = 1 \<longrightarrow>
            anomaly_term d = np_random_uniform 5 10 (uniform01 d)"
    using anomaly_term_cases(2) [of d] by blast
  have c4: "random01 d < 1 / 100 \<and> choice_index d = 0 \<longrightarrow>
            anomaly_term d = - (np_random_uniform 5 10 (uniform01 d) * (3 / 2))"
    using anomaly_term_cases(3) [of d] by blast
  have c5: "0 \<le> uniform01 d \<and> uniform01 d < 1 \<longrightarrow>
            5 \<le> np_random_uniform 5 10 (uniform01 d) \<and>
            np_random_uniform 5 10 (uniform01 d) < 10"
    using np_random_uniform_range [of "uniform01 d"] by blast
  have c6: "0 \<le> uniform01 d \<and> choice_index d < 2 \<longrightarrow>
            {r. 0 \<le> r \<and> r < 1 \<and> anomaly_term (d\<lparr>random01 := r\<rparr>) = 0} = {1 / 100 ..< 1}"
    using anomaly_zero_event [of d] by blast
  note c7 = generate_ok [OF assms, of ds]
  have c8: "trend_factor g = 0 \<and> noise_level g = 0 \<and> counter g = 0 \<and>
          (\<forall>e\<in>set ds. 1 / 100 \<le> random01 e) \<longrightarrow>
            (\<exists>g'. generate g ds =
               Inr (map (\<lambda>n. sin (2 * pi * real n / real_of_int (seasonal_period g)))
                      [0..<length ds], g'))"
    using generate_pure_seasonal [OF assms(1), of ds] by blast
  show ?thesis
    by (intro conjI) (rule c1, rule c2, rule c3, rule c4, rule c5, rule c6, rule c7, rule c8)
qed


theorem get_next_value_structure_witness:
  "seasonal_period \<lparr>seasonal_period = 4, trend_factor = 0, noise_level = 0, counter = 0\<rparr> \<noteq> 0 \<and>
   0 \<le> noise_level \<lparr>seasonal_period = 4, trend_factor = 0, noise_level = 0, counter = 0\<rparr> \<and>
   get_next_value \<lparr>gauss = 1, random01 = 1 / 2, choice_index = 0, uniform01 = 1 / 2\<rparr>
     \<lparr>seasonal_period = 4, trend_factor = 0, noise_level = 0, counter = 0\<rparr>
     = Inr (0, \<lparr>seasonal_period = 4, trend_factor = 0, noise_level = 0, counter = 1\<rparr>) \<and>
   (\<exists>g'. generate \<lparr>seasonal_period = 4, trend_factor = 0, noise_level = 0, counter = 0\<rparr>
       [\<lparr>gauss = 1, random01 = 1 / 2, choice_index = 0, uniform01 = 1 / 2\<rparr>,
        \<lparr>gauss = 2, random01 = 1 / 100, choice_index = 0, uniform01 = 0\<rparr>]
     = Inr ([sin 0, sin (2 * pi * 1 / 4)], g')) \<and>
   anomaly_term \<lparr>gauss = 0, random01 = 0, choice_index = 1, uniform01 = 1 / 2\<rparr> = 15 / 2 \<and>
   anomaly_term \<lparr>gauss = 0, random01 = 0, choice_index = 0, uniform01 = 1 / 2\<rparr> = - (45 / 4)"
proof -
  let ?g = "\<lparr>seasonal_period = 4, trend_factor = 0, noise_level = 0, counter = 0\<rparr>"
  let ?d = "\<lparr>gauss = 1, random01 = 1 / 2, choice_index = 0, uniform01 = 1 / 2\<rparr>"
  let ?e = "\<lparr>gauss = 2, random01 = 1 / 100, choice_index = 0, uniform01 = 0\<rparr>"
  let ?up = "\<lparr>gauss = 0, random01 = 0, choice_index = 1, uniform01 = 1 / 2\<rparr>"
  let ?down = "\<lparr>gauss = 0, random01 = 0, choice_index = 0, uniform01 = 1 / 2\<rparr>"
  have h1: "seasonal_period ?g \<noteq> 0" and h2: "0 \<le> noise_level ?g" by simp_all
  note td = get_next_value_structure [OF h1 h2, of ?d "[?d, ?e]"]
  note tu = get_next_value_structure [OF h1 h2, of ?up "[]"]
  note tw = get_next_value_structure [OF h1 h2, of ?down "[]"]
  have quiet: "anomaly_term ?d = 0"
    using td [THEN conjunct2, THEN conjunct1] by simp
  have one: "get_next_value ?d ?g =
      Inr (0, \<lparr>seasonal_period = 4, trend_factor = 0, noise_level = 0, counter = 1\<rparr>)"
    using td [THEN conjunct1] by (simp add: quiet)
  have "\<exists>g'. generate ?g [?d, ?e] =
      Inr (map (\<lambda>n. sin (2 * pi * real n / real_of_int (seasonal_period ?g)))
             [0..<length [?d, ?e]], g')"
    by (rule td [THEN conjunct2, THEN conjunct2, THEN conjunct2, THEN conjunct2,
          THEN conjunct2, THEN conjunct2, THEN conjunct2, THEN mp]) simp
  then have two: "\<exists>g'. generate ?g [?d, ?e] = Inr ([sin 0, sin (2 * pi * 1 / 4)], g')"
    by (simp add: upt_rec)
  have up: "anomaly_term ?up = 15 / 2"
    using tu [THEN conjunct2, THEN conjunct2, THEN conjunct1]
    by (simp add: np_random_uniform_def)
  have down: "anomaly_term ?down = - (45 / 4)"
    using tw [THEN conjunct2, THEN conjunct2, THEN conjunct2, THEN conjunct1]
    by (simp add: np_random_uniform_def)
  from h1 h2 one two up down show ?thesis by blast
qed

end
